theory Spec2Isabelle
  imports Complex_Main "HOL-Library.Word" "HOL-Library.Multiset"
begin

unbundle bit_operations_syntax

section \<open>Values of the Python program\<close>

text \<open>
  The program is \<^verbatim>\<open>app.py\<close>. A number of a stored or queried vector is a finite double,
  given by its value, a \<^typ>\<open>real\<close>; what \<^verbatim>\<open>calculate_similarity\<close> and \<^verbatim>\<open>round\<close> compute from
  such numbers is computed in IEEE double arithmetic, modelled below. The numbers that
  \<^verbatim>\<open>generate_mock_embedding\<close> computes are given by their exact values. A Python \<^verbatim>\<open>str\<close> is a
  sequence of Unicode code points (numbers below \<open>0x110000\<close>, lone surrogates included), a
  \<^verbatim>\<open>bytes\<close> value a sequence of octets.
\<close>

type_synonym byte = "8 word"
type_synonym u32 = "32 word"
type_synonym pystr = "nat list"

text \<open>The exceptions that the modelled code can raise.\<close>

datatype error = UnicodeEncodeError | ValueError

text \<open>An ASCII literal of the source as a \<^verbatim>\<open>str\<close>.\<close>

definition str_lit :: "string \<Rightarrow> pystr" where
  "str_lit s = map of_char s"

text \<open>\<^verbatim>\<open>xs[:n]\<close>: a negative bound counts from the end, and the bounds are clamped.\<close>

definition slice_to :: "'a list \<Rightarrow> int \<Rightarrow> 'a list" where
  "slice_to xs n = (if n < 0 then take (nat (int (length xs) + n)) xs else take (nat n) xs)"

subsection \<open>\<^verbatim>\<open>str.encode()\<close>: UTF-8, strict\<close>

definition surrogate :: "nat \<Rightarrow> bool" where
  "surrogate c = (0xD800 \<le> c \<and> c \<le> 0xDFFF)"

definition utf8_char :: "nat \<Rightarrow> byte list" where
  "utf8_char c =
     (if c < 0x80 then [of_nat c]
      else if c < 0x800 then [of_nat (0xC0 + c div 64), of_nat (0x80 + c mod 64)]
      else if c < 0x10000 then
        [of_nat (0xE0 + c div 4096), of_nat (0x80 + (c div 64) mod 64), of_nat (0x80 + c mod 64)]
      else
        [of_nat (0xF0 + c div 262144), of_nat (0x80 + (c div 4096) mod 64),
         of_nat (0x80 + (c div 64) mod 64), of_nat (0x80 + c mod 64)])"

text \<open>A lone surrogate has no UTF-8 encoding: \<^verbatim>\<open>encode\<close> raises \<^verbatim>\<open>UnicodeEncodeError\<close>.\<close>

fun str_encode :: "pystr \<Rightarrow> error + byte list" where
  "str_encode [] = Inr []"
| "str_encode (c # cs) =
     (if surrogate c then Inl UnicodeEncodeError
      else case str_encode cs of Inl e \<Rightarrow> Inl e | Inr bs \<Rightarrow> Inr (utf8_char c @ bs))"

subsection \<open>\<^verbatim>\<open>hashlib.md5\<close> (RFC 1321)\<close>

definition rotl32 :: "u32 \<Rightarrow> nat \<Rightarrow> u32" where
  "rotl32 x n = (push_bit n x) OR (drop_bit (32 - n) x)"

definition md5_K :: "u32 list" where
  "md5_K = [
    0xd76aa478, 0xe8c7b756, 0x242070db, 0xc1bdceee, 0xf57c0faf, 0x4787c62a, 0xa8304613, 0xfd469501,
    0x698098d8, 0x8b44f7af, 0xffff5bb1, 0x895cd7be, 0x6b901122, 0xfd987193, 0xa679438e, 0x49b40821,
    0xf61e2562, 0xc040b340, 0x265e5a51, 0xe9b6c7aa, 0xd62f105d, 0x02441453, 0xd8a1e681, 0xe7d3fbc8,
    0x21e1cde6, 0xc33707d6, 0xf4d50d87, 0x455a14ed, 0xa9e3e905, 0xfcefa3f8, 0x676f02d9, 0x8d2a4c8a,
    0xfffa3942, 0x8771f681, 0x6d9d6122, 0xfde5380c, 0xa4beea44, 0x4bdecfa9, 0xf6bb4b60, 0xbebfbc70,
    0x289b7ec6, 0xeaa127fa, 0xd4ef3085, 0x04881d05, 0xd9d4d039, 0xe6db99e5, 0x1fa27cf8, 0xc4ac5665,
    0xf4292244, 0x432aff97, 0xab9423a7, 0xfc93a039, 0x655b59c3, 0x8f0ccc92, 0xffeff47d, 0x85845dd1,
    0x6fa87e4f, 0xfe2ce6e0, 0xa3014314, 0x4e0811a1, 0xf7537e82, 0xbd3af235, 0x2ad7d2bb, 0xeb86d391]"

definition md5_S :: "nat list" where
  "md5_S = [7, 12, 17, 22, 7, 12, 17, 22, 7, 12, 17, 22, 7, 12, 17, 22,
            5, 9, 14, 20, 5, 9, 14, 20, 5, 9, 14, 20, 5, 9, 14, 20,
            4, 11, 16, 23, 4, 11, 16, 23, 4, 11, 16, 23, 4, 11, 16, 23,
            6, 10, 15, 21, 6, 10, 15, 21, 6, 10, 15, 21, 6, 10, 15, 21]"

type_synonym md5_state = "u32 \<times> u32 \<times> u32 \<times> u32"

definition md5_init :: md5_state where
  "md5_init = (0x67452301, 0xefcdab89, 0x98badcfe, 0x10325476)"

definition md5_step :: "u32 list \<Rightarrow> md5_state \<Rightarrow> nat \<Rightarrow> md5_state" where
  "md5_step M st i =
     (case st of (A, B, C, D) \<Rightarrow>
        let (F, g) =
              (if i < 16 then ((B AND C) OR (NOT B AND D), i)
               else if i < 32 then ((D AND B) OR (NOT D AND C), (5 * i + 1) mod 16)
               else if i < 48 then (B XOR C XOR D, (3 * i + 5) mod 16)
               else (C XOR (B OR NOT D), (7 * i) mod 16));
            F' = F + A + md5_K ! i + M ! g
        in (D, B + rotl32 F' (md5_S ! i), B, C))"

fun le_word :: "byte list \<Rightarrow> u32" where
  "le_word [] = 0"
| "le_word (b # bs) = ucast b + 256 * le_word bs"

fun block_words :: "nat \<Rightarrow> byte list \<Rightarrow> u32 list" where
  "block_words 0 bs = []"
| "block_words (Suc n) bs = le_word (take 4 bs) # block_words n (drop 4 bs)"

definition md5_compress :: "md5_state \<Rightarrow> byte list \<Rightarrow> md5_state" where
  "md5_compress st blk =
     (case st of (a0, b0, c0, d0) \<Rightarrow>
        case foldl (md5_step (block_words 16 blk)) st [0..<64] of
          (A, B, C, D) \<Rightarrow> (a0 + A, b0 + B, c0 + C, d0 + D))"

function md5_blocks :: "md5_state \<Rightarrow> byte list \<Rightarrow> md5_state" where
  "md5_blocks st bs =
     (if length bs < 64 then st else md5_blocks (md5_compress st (take 64 bs)) (drop 64 bs))"
  by pat_completeness auto
termination
  by (relation "measure (\<lambda>(st, bs). length bs)") auto

declare md5_blocks.simps [simp del]

fun le_bytes :: "nat \<Rightarrow> 'a::len word \<Rightarrow> byte list" where
  "le_bytes 0 w = []"
| "le_bytes (Suc n) w = ucast w # le_bytes n (drop_bit 8 w)"

definition md5_pad :: "byte list \<Rightarrow> byte list" where
  "md5_pad bs =
     bs @ [0x80] @ replicate ((55 + 64 - length bs mod 64) mod 64) 0
        @ le_bytes 8 (of_nat (8 * length bs) :: 64 word)"

definition md5 :: "byte list \<Rightarrow> byte list" where
  "md5 bs =
     (case md5_blocks md5_init (md5_pad bs) of
        (A, B, C, D) \<Rightarrow> concat (map (le_bytes 4) [A, B, C, D]))"

text \<open>\<^verbatim>\<open>hexdigest()\<close>: two lower-case hexadecimal digits for each octet.\<close>

definition hex_digit :: "nat \<Rightarrow> char" where
  "hex_digit n = ''0123456789abcdef'' ! n"

definition hexdigest :: "byte list \<Rightarrow> string" where
  "hexdigest bs = concat (map (\<lambda>b. [hex_digit (unat b div 16), hex_digit (unat b mod 16)]) bs)"

text \<open>
  \<^verbatim>\<open>int(s, 16)\<close> on a string of hexadecimal digits; \<^verbatim>\<open>ValueError\<close> on the empty string
  and on any other character. (Python also accepts a sign, blanks, underscores and a
  \<^verbatim>\<open>0x\<close> prefix; no digest contains them.)
\<close>

definition hex_value :: "char \<Rightarrow> nat option" where
  "hex_value c =
     (let n = (of_char c :: nat) in
      if 48 \<le> n \<and> n \<le> 57 then Some (n - 48)
      else if 97 \<le> n \<and> n \<le> 102 then Some (n - 87)
      else if 65 \<le> n \<and> n \<le> 70 then Some (n - 55)
      else None)"

fun digits_value :: "string \<Rightarrow> nat \<Rightarrow> nat option" where
  "digits_value [] acc = Some acc"
| "digits_value (c # cs) acc =
     (case hex_value c of None \<Rightarrow> None | Some d \<Rightarrow> digits_value cs (16 * acc + d))"

definition int16 :: "string \<Rightarrow> error + int" where
  "int16 s =
     (if s = [] then Inl ValueError
      else case digits_value s 0 of None \<Rightarrow> Inl ValueError | Some n \<Rightarrow> Inr (int n))"

section \<open>The deterministic fallback provider: \<^verbatim>\<open>generate_mock_embedding\<close>\<close>

text \<open>
  The \<^verbatim>\<open>for\<close> loop over \<^verbatim>\<open>range(0, len(hash_hex), 2)\<close>: the argument is what is left of
  \<^verbatim>\<open>hash_hex\<close> from position \<^verbatim>\<open>i\<close> on, and \<^verbatim>\<open>hash_hex[i:i+2]\<close> is its first two characters
  (one, if only one is left).
\<close>

fun hash_loop :: "string \<Rightarrow> real list \<Rightarrow> error + real list" where
  "hash_loop [] embedding = Inr embedding"
| "hash_loop [c] embedding =
     (case int16 [c] of Inl e \<Rightarrow> Inl e
      | Inr n \<Rightarrow> Inr (embedding @ [of_int n / 255 - 1 / 2]))"
| "hash_loop (c # d # rest) embedding =
     (case int16 [c, d] of Inl e \<Rightarrow> Inl e
      | Inr n \<Rightarrow> hash_loop rest (embedding @ [of_int n / 255 - 1 / 2]))"

text \<open>
  The \<^verbatim>\<open>while\<close> loop that pads the list. On an empty list with a positive dimension it
  never ends, so its result is an option: \<^term>\<open>None\<close> is "does not return".
\<close>

partial_function (option) pad_loop :: "real list \<Rightarrow> int \<Rightarrow> real list option" where
  "pad_loop embedding dimension =
     (if int (length embedding) < dimension
      then pad_loop
             (embedding @
                slice_to embedding
                  (min (int (length embedding)) (dimension - int (length embedding))))
             dimension
      else Some embedding)"

definition generate_mock_embedding :: "pystr \<Rightarrow> int \<Rightarrow> (error + real list) option" where
  "generate_mock_embedding text dimension =
     (case str_encode text of
        Inl e \<Rightarrow> Some (Inl e)
      | Inr bs \<Rightarrow>
          (let hash_hex = hexdigest (md5 bs) in
           case hash_loop hash_hex [] of
             Inl e \<Rightarrow> Some (Inl e)
           | Inr embedding \<Rightarrow>
               (case pad_loop embedding dimension of
                  None \<Rightarrow> None
                | Some embedding' \<Rightarrow> Some (Inr (slice_to embedding' dimension)))))"

section \<open>Embedding values and \<^verbatim>\<open>generate_image_embedding\<close>\<close>

text \<open>
  An embedding as the program holds it: the list of numbers of a JSON document, or
  \<^verbatim>\<open>None\<close> (a JSON \<^verbatim>\<open>null\<close>).
\<close>

datatype embedding = PyNone | PyList "real list"

text \<open>The items of the request to the embedding service.\<close>

datatype content_item = TextItem pystr | ImageBase64 pystr

text \<open>\<^verbatim>\<open>not voyage_api_key\<close>: the variable is unset or empty.\<close>

definition no_api_key :: "pystr option \<Rightarrow> bool" where
  "no_api_key voyage_api_key = (voyage_api_key = None \<or> voyage_api_key = Some [])"

text \<open>
  The fallback both branches share: \<^verbatim>\<open>generate_mock_embedding(combined_text)\<close> with the
  default dimension.
\<close>

definition mock_of_description :: "pystr \<Rightarrow> (error + embedding) option" where
  "mock_of_description description =
     (let combined_text =
            (if description \<noteq> [] then description @ str_lit '' [IMAGE_CONTENT]''
             else str_lit ''[IMAGE_CONTENT]'')
      in map_option (map_sum id PyList) (generate_mock_embedding combined_text 1024))"

text \<open>
  The \<^verbatim>\<open>try\<close> block (the request, the status check and the reading of
  \<^verbatim>\<open>result["data"][0]["embedding"]\<close>) is the parameter \<open>post\<close>: it is given the key and the
  content list, and yields the embedding of the response, or \<^term>\<open>None\<close> when any
  exception is raised inside the block.
\<close>

definition generate_image_embedding ::
  "pystr option \<Rightarrow> (pystr option \<Rightarrow> content_item list \<Rightarrow> embedding option) \<Rightarrow> pystr \<Rightarrow> pystr
     \<Rightarrow> (error + embedding) option" where
  "generate_image_embedding voyage_api_key post image_data description =
     (if no_api_key voyage_api_key then mock_of_description description
      else
        let content =
              (if description \<noteq> [] then [TextItem description] else [])
                @ [ImageBase64 image_data]
        in case post voyage_api_key content of
             Some embedding \<Rightarrow> Some (Inr embedding)
           | None \<Rightarrow> mock_of_description description)"

section \<open>IEEE double arithmetic\<close>

text \<open>
  The result of a floating-point operation: a finite double, given by its value, an
  infinity or NaN. The sign of a zero is not kept: the program only compares zeros and
  divides by a norm, which is never negative.
\<close>

datatype double = Fin real | PInf | NInf | NaN

text \<open>The integer nearest to a real number, a tie going to the even one.\<close>

definition round_half_even :: "real \<Rightarrow> int" where
  "round_half_even y =
     (let f = \<lfloor>y\<rfloor>; d = y - of_int f
      in if d < 1 / 2 then f else if 1 / 2 < d then f + 1 else if even f then f else f + 1)"

text \<open>
  Rounding a real number to binary64, to nearest and ties to even: a significand of 53
  bits, exponents from \<open>- 1022\<close> to \<open>1023\<close>, gradual underflow below, and an infinity when the
  rounded value reaches \<open>2 ^ 1024\<close>.
\<close>

definition fl :: "real \<Rightarrow> double" where
  "fl x =
     (if x = 0 then Fin 0
      else
        let e = max \<lfloor>log 2 \<bar>x\<bar>\<rfloor> (- 1022);
            q = 2 powi (e - 52);
            y = of_int (round_half_even (x / q)) * q
        in if 2 ^ 1024 \<le> \<bar>y\<bar> then (if 0 < x then PInf else NInf) else Fin y)"

text \<open>
  The operations on doubles: the exact result, rounded; the usual rules for infinities
  and NaN; a division by zero gives an infinity, or NaN for zero by zero.
\<close>

fun fmul :: "double \<Rightarrow> double \<Rightarrow> double" where
  "fmul (Fin x) (Fin y) = fl (x * y)"
| "fmul NaN _ = NaN"
| "fmul _ NaN = NaN"
| "fmul (Fin x) PInf = (if x = 0 then NaN else if 0 < x then PInf else NInf)"
| "fmul (Fin x) NInf = (if x = 0 then NaN else if 0 < x then NInf else PInf)"
| "fmul PInf (Fin y) = (if y = 0 then NaN else if 0 < y then PInf else NInf)"
| "fmul NInf (Fin y) = (if y = 0 then NaN else if 0 < y then NInf else PInf)"
| "fmul PInf PInf = PInf"
| "fmul NInf NInf = PInf"
| "fmul PInf NInf = NInf"
| "fmul NInf PInf = NInf"

fun fadd :: "double \<Rightarrow> double \<Rightarrow> double" where
  "fadd (Fin x) (Fin y) = fl (x + y)"
| "fadd NaN _ = NaN"
| "fadd _ NaN = NaN"
| "fadd PInf NInf = NaN"
| "fadd NInf PInf = NaN"
| "fadd PInf _ = PInf"
| "fadd NInf _ = NInf"
| "fadd _ PInf = PInf"
| "fadd _ NInf = NInf"

fun fdiv :: "double \<Rightarrow> double \<Rightarrow> double" where
  "fdiv (Fin x) (Fin y) =
     (if y = 0 then (if x = 0 then NaN else if 0 < x then PInf else NInf) else fl (x / y))"
| "fdiv NaN _ = NaN"
| "fdiv _ NaN = NaN"
| "fdiv (Fin x) _ = Fin 0"
| "fdiv PInf (Fin y) = (if 0 \<le> y then PInf else NInf)"
| "fdiv NInf (Fin y) = (if 0 \<le> y then NInf else PInf)"
| "fdiv _ _ = NaN"

fun fsqrt :: "double \<Rightarrow> double" where
  "fsqrt (Fin x) = (if x < 0 then NaN else fl (sqrt x))"
| "fsqrt PInf = PInf"
| "fsqrt _ = NaN"

text \<open>The comparisons \<^verbatim>\<open><\<close> and \<^verbatim>\<open><=\<close> of doubles: false when an operand is NaN.\<close>

fun flt :: "double \<Rightarrow> double \<Rightarrow> bool" where
  "flt (Fin x) (Fin y) = (x < y)"
| "flt NaN _ = False"
| "flt _ NaN = False"
| "flt NInf NInf = False"
| "flt NInf _ = True"
| "flt PInf _ = False"
| "flt _ PInf = True"
| "flt _ NInf = False"

definition fle :: "double \<Rightarrow> double \<Rightarrow> bool" where
  "fle a b = (flt a b \<or> (a = b \<and> a \<noteq> NaN))"

section \<open>\<^verbatim>\<open>calculate_similarity\<close>\<close>

text \<open>\<^verbatim>\<open>not embedding\<close>: the value is \<^verbatim>\<open>None\<close> or an empty list.\<close>

fun falsy :: "embedding \<Rightarrow> bool" where
  "falsy PyNone = True"
| "falsy (PyList xs) = (xs = [])"

text \<open>\<^verbatim>\<open>np.array\<close> of a list of numbers.\<close>

fun np_array :: "embedding \<Rightarrow> real list" where
  "np_array PyNone = []"
| "np_array (PyList xs) = xs"

text \<open>
  \<^verbatim>\<open>np.dot\<close> of two arrays of the same length: the products are added up from left to
  right. (A BLAS routine may add them in another order; the value is the same whenever no
  partial sum is rounded, as in every example below.)
\<close>

definition np_dot :: "real list \<Rightarrow> real list \<Rightarrow> double" where
  "np_dot vec1 vec2 =
     foldl (\<lambda>acc (x, y). fadd acc (fmul (Fin x) (Fin y))) (Fin 0) (zip vec1 vec2)"

text \<open>\<^verbatim>\<open>np.linalg.norm\<close> of a one-dimensional array: the square root of its dot product with itself.\<close>

definition linalg_norm :: "real list \<Rightarrow> double" where
  "linalg_norm vec = fsqrt (np_dot vec vec)"

text \<open>
  \<^verbatim>\<open>np.dot\<close> of two one-dimensional arrays of different lengths raises \<^verbatim>\<open>ValueError\<close>
  (the shapes are not aligned); this happens before the norms are looked at.
\<close>

definition calculate_similarity :: "embedding \<Rightarrow> embedding \<Rightarrow> error + double" where
  "calculate_similarity embedding1 embedding2 =
     (if falsy embedding1 \<or> falsy embedding2 then Inr (Fin 0)
      else
        let vec1 = np_array embedding1; vec2 = np_array embedding2
        in if length vec1 \<noteq> length vec2 then Inl ValueError
           else
             let dot_product = np_dot vec1 vec2;
                 norm1 = linalg_norm vec1;
                 norm2 = linalg_norm vec2
             in if norm1 = Fin 0 \<or> norm2 = Fin 0 then Inr (Fin 0)
                else Inr (fdiv dot_product (fmul norm1 norm2)))"

section \<open>The search handlers\<close>

text \<open>
  A stored photo document. A key that may be missing is an option: \<^term>\<open>None\<close> is
  "the document has no such key".
\<close>

record photo =
  photo_id :: string
  title :: "string option"
  description :: "string option"
  imageUrl :: "string option"
  thumbnailUrl :: "string option"
  metadata :: "(string \<times> string) list option"
  textEmbedding :: "embedding option"
  imageEmbedding :: "embedding option"

text \<open>The dictionary \<^verbatim>\<open>photo_data\<close> of one result.\<close>

record photo_data =
  pd_id :: string
  pd_title :: string
  pd_description :: string
  pd_imageUrl :: string
  pd_thumbnailUrl :: string
  pd_similarity :: double
  pd_metadata :: "(string \<times> string) list"

text \<open>The body of a successful response: the result list and the \<^verbatim>\<open>metadata\<close> entries.\<close>

record search_response =
  resp_results :: "photo_data list"
  resp_totalResults :: int
  resp_limit :: int

text \<open>\<^verbatim>\<open>dict.get(key, default)\<close>.\<close>

definition get_default :: "'a option \<Rightarrow> 'a \<Rightarrow> 'a" where
  "get_default v d = (case v of None \<Rightarrow> d | Some x \<Rightarrow> x)"

text \<open>
  \<^verbatim>\<open>round(x, 3)\<close> of a float: the double nearest to the multiple of one thousandth that is
  nearest to the value of \<open>x\<close> (a tie going to the even multiple); an infinity and NaN are
  returned as they are.
\<close>

fun round3 :: "double \<Rightarrow> double" where
  "round3 (Fin x) = fl (of_int (round_half_even (x * 1000)) / 1000)"
| "round3 d = d"

definition make_photo_data :: "photo \<Rightarrow> double \<Rightarrow> photo_data" where
  "make_photo_data p sim =
     \<lparr>pd_id = photo_id p,
      pd_title = get_default (title p) [],
      pd_description = get_default (description p) [],
      pd_imageUrl = get_default (imageUrl p) [],
      pd_thumbnailUrl = get_default (thumbnailUrl p) [],
      pd_similarity = round3 sim,
      pd_metadata = get_default (metadata p) []\<rparr>"

text \<open>
  The loop over the photos. \<open>field\<close> is \<^const>\<open>textEmbedding\<close> in \<^verbatim>\<open>search_by_text\<close> and
  \<^const>\<open>imageEmbedding\<close> in \<^verbatim>\<open>search_by_image\<close>; nothing else differs between the two loops.
  An exception of \<^const>\<open>calculate_similarity\<close> ends the loop. The literal \<^verbatim>\<open>0.1\<close> is the double
  nearest to one tenth.
\<close>

fun search_loop ::
  "(photo \<Rightarrow> embedding option) \<Rightarrow> embedding \<Rightarrow> photo list \<Rightarrow> photo_data list
     \<Rightarrow> error + photo_data list" where
  "search_loop field query_embedding [] results = Inr results"
| "search_loop field query_embedding (p # photos) results =
     (case field p of
        None \<Rightarrow> search_loop field query_embedding photos results
      | Some e \<Rightarrow>
          (case calculate_similarity query_embedding e of
             Inl err \<Rightarrow> Inl err
           | Inr sim \<Rightarrow>
               if flt (fl (1 / 10)) sim
               then search_loop field query_embedding photos (results @ [make_photo_data p sim])
               else search_loop field query_embedding photos results))"

text \<open>
  \<^verbatim>\<open>results.sort(key=lambda x: x['similarity'], reverse=True)\<close>: Python's sort is stable,
  also with \<^verbatim>\<open>reverse=True\<close>, and compares keys with \<^verbatim>\<open><\<close>. It is modelled by the stable
  insertion sort: an entry goes in front of the first entry whose key is not greater than
  its own. (No key is NaN here: an entry is only made for a score above the threshold.)
\<close>

fun insert_result :: "photo_data \<Rightarrow> photo_data list \<Rightarrow> photo_data list" where
  "insert_result x [] = [x]"
| "insert_result x (y # ys) =
     (if flt (pd_similarity x) (pd_similarity y) then y # insert_result x ys else x # y # ys)"

definition sort_results :: "photo_data list \<Rightarrow> photo_data list" where
  "sort_results results = foldr insert_result results []"

text \<open>
  The handler from the point where \<^verbatim>\<open>query_embedding\<close> is known: the loop, the sort, the
  slice and the response. \<^term>\<open>Inl e\<close> is the \<^verbatim>\<open>except\<close> branch, which answers with status 500.
\<close>

definition search_photos ::
  "(photo \<Rightarrow> embedding option) \<Rightarrow> embedding \<Rightarrow> photo list \<Rightarrow> int \<Rightarrow> error + search_response" where
  "search_photos field query_embedding photos limit =
     (case search_loop field query_embedding photos [] of
        Inl e \<Rightarrow> Inl e
      | Inr results \<Rightarrow>
          (let results' = slice_to (sort_results results) limit
           in Inr \<lparr>resp_results = results',
                   resp_totalResults = int (length results'),
                   resp_limit = limit\<rparr>))"

definition search_by_text :: "embedding \<Rightarrow> photo list \<Rightarrow> int \<Rightarrow> error + search_response" where
  "search_by_text = search_photos textEmbedding"

definition search_by_image :: "embedding \<Rightarrow> photo list \<Rightarrow> int \<Rightarrow> error + search_response" where
  "search_by_image = search_photos imageEmbedding"

section \<open>Notions used to state the properties\<close>

text \<open>The number that the loop of \<^const>\<open>generate_mock_embedding\<close> appends for one digest octet.\<close>

definition byte_val :: "byte \<Rightarrow> real" where
  "byte_val b = real (unat b) / 255 - 1 / 2"

text \<open>
  What one photo contributes to the result list: one entry when it has the requested
  key and its score is above the threshold, nothing otherwise.
\<close>

definition entry :: "(photo \<Rightarrow> embedding option) \<Rightarrow> embedding \<Rightarrow> photo \<Rightarrow> photo_data list" where
  "entry field q p =
     (case field p of
        None \<Rightarrow> []
      | Some e \<Rightarrow>
          (case calculate_similarity q e of
             Inl err \<Rightarrow> []
           | Inr sim \<Rightarrow> if flt (fl (1 / 10)) sim then [make_photo_data p sim] else []))"

text \<open>The qualifying records, in the order of the corpus.\<close>

definition qualifying ::
  "(photo \<Rightarrow> embedding option) \<Rightarrow> embedding \<Rightarrow> photo list \<Rightarrow> photo_data list" where
  "qualifying field q photos = concat (map (entry field q) photos)"

text \<open>
  Two embeddings can be compared when one of them is \<^verbatim>\<open>None\<close> or empty, or when they have
  the same length; a corpus is well formed for a query when every embedding stored under
  the requested key can be compared with it.
\<close>

definition dims_ok :: "embedding \<Rightarrow> embedding \<Rightarrow> bool" where
  "dims_ok q e = (falsy q \<or> falsy e \<or> length (np_array q) = length (np_array e))"

definition well_formed :: "(photo \<Rightarrow> embedding option) \<Rightarrow> embedding \<Rightarrow> photo list \<Rightarrow> bool" where
  "well_formed field q photos = (\<forall>p\<in>set photos. \<forall>e. field p = Some e \<longrightarrow> dims_ok q e)"

text \<open>A photo document that has an identifier and, possibly, the two embedding keys.\<close>

definition stored_photo :: "string \<Rightarrow> embedding option \<Rightarrow> embedding option \<Rightarrow> photo" where
  "stored_photo i te ie =
     \<lparr>photo_id = i, title = None, description = None, imageUrl = None, thumbnailUrl = None,
      metadata = None, textEmbedding = te, imageEmbedding = ie\<rparr>"

text \<open>A result entry of such a photo, and a small corpus used in the examples below.\<close>

definition result_entry :: "string \<Rightarrow> double \<Rightarrow> photo_data" where
  "result_entry i s = \<lparr>pd_id = i, pd_title = [], pd_description = [], pd_imageUrl = [],
     pd_thumbnailUrl = [], pd_similarity = s, pd_metadata = []\<rparr>"

definition example_corpus :: "photo list" where
  "example_corpus =
     [stored_photo ''a'' (Some (PyList [3, 4])) None,
      stored_photo ''b'' (Some (PyList [1, 0])) None,
      stored_photo ''c'' (Some (PyList [4, 3])) None,
      stored_photo ''d'' None (Some (PyList [1, 0])),
      stored_photo ''e'' (Some (PyList [0, 1])) None,
      stored_photo ''f'' (Some (PyList [3, 4])) None]"

section \<open>Rounding: auxiliary facts\<close>

lemma expo_eq:
  assumes "2 powi e \<le> \<bar>x\<bar>" and "\<bar>x\<bar> < 2 powi (e + 1)"
  shows "\<lfloor>log 2 \<bar>x\<bar>\<rfloor> = e"
proof -
  have pos: "0 < \<bar>x\<bar>" using assms(1) by (smt (verit) zero_less_power_int)
  have a: "2 powr (of_int e) \<le> \<bar>x\<bar>" using assms(1) by (simp add: powr_real_of_int')
  have "2 powr (real_of_int e + 1) = (2 :: real) powi (e + 1)"
    using powr_real_of_int' [of "2 :: real" "e + 1"] by simp
  then have b: "\<bar>x\<bar> < 2 powr (real_of_int e + 1)" using assms(2) by simp
  have "of_int e \<le> log 2 \<bar>x\<bar>" using a pos by (simp add: le_log_iff)
  moreover have "log 2 \<bar>x\<bar> < real_of_int e + 1" using b pos by (simp add: log_less_iff)
  ultimately show ?thesis by linarith
qed

lemma fl_eval:
  assumes "2 powi e \<le> \<bar>x\<bar>" and "\<bar>x\<bar> < 2 powi (e + 1)"
  shows "fl x =
     (let e' = max e (- 1022);
          q = 2 powi (e' - 52);
          y = of_int (round_half_even (x / q)) * q
      in if 2 ^ 1024 \<le> \<bar>y\<bar> then (if 0 < x then PInf else NInf) else Fin y)"
proof -
  have "x \<noteq> 0" using assms(1) by (smt (verit) zero_less_power_int abs_zero)
  then show ?thesis
    by (simp add: fl_def expo_eq [OF assms])
qed





lemma fl_not_NaN: "fl x \<noteq> NaN"
  by (simp add: fl_def Let_def)

lemma round_half_even_of_int: "round_half_even (of_int m) = m"
  by (simp add: round_half_even_def)

lemma fl_of_int:
  assumes "\<bar>k\<bar> < 2 ^ 53"
  shows "fl (of_int k) = Fin (of_int k)"
proof (cases "k = 0")
  case True
  then show ?thesis by (simp add: fl_def)
next
  case False
  define x :: real where "x = of_int k"
  have x1: "1 \<le> \<bar>x\<bar>" using False by (simp add: x_def flip: of_int_abs)
  have x2: "\<bar>x\<bar> < 2 ^ 53" using assms unfolding x_def
    by (metis of_int_abs of_int_less_iff of_int_numeral of_int_power)
  have pos: "0 < \<bar>x\<bar>" using x1 by linarith
  define e where "e = \<lfloor>log 2 \<bar>x\<bar>\<rfloor>"
  have e0: "0 \<le> e" unfolding e_def using x1 by simp
  have "log 2 \<bar>x\<bar> < 53"
    using x2 pos by (simp add: log_less_iff powr_numeral [symmetric] del: powr_numeral)
  then have e52: "e \<le> 52" unfolding e_def by linarith
  define j where "j = nat (52 - e)"
  have q: "(2 :: real) powi (e - 52) = 1 / 2 ^ j"
    using e52 by (simp add: j_def power_int_def field_simps)
  have "x / (2 powi (e - 52)) = of_int (k * 2 ^ j)"
    by (simp add: q x_def)
  then have r: "round_half_even (x / (2 powi (e - 52))) = k * 2 ^ j"
    by (simp only: round_half_even_of_int)
  have y: "real_of_int k * 2 ^ j * 2 powi (e - 52) = x"
    by (simp add: q x_def)
  have "\<not> 2 ^ 1024 \<le> \<bar>x\<bar>"
  proof -
    have "(2 :: real) ^ 53 \<le> 2 ^ 1024" by (intro power_increasing) simp_all
    then show ?thesis using x2 by linarith
  qed
  then have "fl x = Fin x"
    using pos e0 unfolding fl_def e_def [symmetric] Let_def
    by (simp add: max_def r y)
  then show ?thesis by (simp add: x_def)
qed

lemma fl_numeral [simp]: "numeral n < (2 :: int) ^ 53 \<Longrightarrow> fl (numeral n) = Fin (numeral n)"
  using fl_of_int [of "numeral n"] by simp

lemma fl_0 [simp]: "fl 0 = Fin 0"
  by (simp add: fl_def)

lemma fl_1 [simp]: "fl 1 = Fin 1"
  using fl_of_int [of 1] by simp

lemma fl_3_5: "fl (3 / 5) = Fin (5404319552844595 / 9007199254740992)"
  by (subst fl_eval [where e = "- 1"]) (simp_all add: round_half_even_def Let_def power_int_minus)

lemma fl_4_5: "fl (4 / 5) = Fin (3602879701896397 / 4503599627370496)"
  by (subst fl_eval [where e = "- 1"]) (simp_all add: round_half_even_def Let_def power_int_minus)

lemma fl_1_10: "fl (1 / 10) = Fin (3602879701896397 / 36028797018963968)"
  by (subst fl_eval [where e = "- 4"]) (simp_all add: round_half_even_def Let_def power_int_minus)

lemma round_half_even_eq:
  assumes "real_of_int m - 1 / 2 < t" and "t < real_of_int m + 1 / 2"
  shows "round_half_even t = m"
proof -
  have "\<lfloor>t\<rfloor> = m \<and> t - of_int m < 1 / 2 \<or> \<lfloor>t\<rfloor> = m - 1 \<and> 1 / 2 < t - of_int (m - 1)"
  proof (cases "of_int m \<le> t")
    case True
    then have "\<lfloor>t\<rfloor> = m" using assms(2) by (intro floor_unique) linarith+
    then show ?thesis using assms(2) by simp
  next
    case False
    have "real_of_int (m - 1) = real_of_int m - 1" by simp
    then have "\<lfloor>t\<rfloor> = m - 1" using assms(1) False by (intro floor_unique) linarith+
    then show ?thesis using assms(1) by simp
  qed
  then show ?thesis
    by (auto simp: round_half_even_def Let_def)
qed

section \<open>The fallback provider: auxiliary facts\<close>

lemma length_le_bytes: "length (le_bytes n w) = n"
  by (induction n arbitrary: w) simp_all

lemma length_md5: "length (md5 bs) = 16"
  by (simp add: md5_def length_le_bytes split: prod.splits)

lemma str_encode_ok: "\<forall>c\<in>set text. \<not> surrogate c \<Longrightarrow> \<exists>bs. str_encode text = Inr bs"
  by (induction "text") auto

lemma str_encode_Inr_iff: "(\<exists>bs. str_encode text = Inr bs) \<longleftrightarrow> (\<forall>c\<in>set text. \<not> surrogate c)"
  by (induction "text") (auto split: sum.splits)

lemma hex_value_digit: "n < 16 \<Longrightarrow> hex_value (hex_digit n) = Some n"
proof -
  assume "n < 16"
  then have "n \<in> {0, 1, 2, 3, 4, 5, 6, 7, 8, 9, 10, 11, 12, 13, 14, 15}"
    by (simp only: insert_iff empty_iff) arith
  then show ?thesis
    by (auto simp: hex_value_def hex_digit_def)
qed

lemma int16_pair:
  "int16 [hex_digit (unat b div 16), hex_digit (unat b mod 16)] = Inr (uint b)" for b :: byte
proof -
  have "unat b < 256" using unsigned_less [of b, where ?'a = nat] by simp
  then have "unat b div 16 < 16" "unat b mod 16 < 16" by auto
  then show ?thesis
    by (simp add: int16_def hex_value_digit)
qed

lemma hash_loop_hexdigest:
  "hash_loop (hexdigest bs) acc = Inr (acc @ map byte_val bs)"
proof (induction bs arbitrary: acc)
  case Nil
  then show ?case by (simp add: hexdigest_def)
next
  case (Cons b bs)
  have "hexdigest (b # bs) = hex_digit (unat b div 16) # hex_digit (unat b mod 16) # hexdigest bs"
    by (simp add: hexdigest_def)
  then show ?case using Cons.IH
    by (simp add: int16_pair byte_val_def)
qed

lemma pad_loop_done: "dimension \<le> int (length e) \<Longrightarrow> pad_loop e dimension = Some e"
  by (subst pad_loop.simps) simp

lemma pad_loop_double:
  "2 * int (length e) \<le> dimension \<Longrightarrow> e \<noteq> [] \<Longrightarrow> pad_loop e dimension = pad_loop (e @ e) dimension"
proof -
  assume a: "2 * int (length e) \<le> dimension" "e \<noteq> []"
  then have "0 < length e" by simp
  with a have lt: "int (length e) < dimension" by linarith
  have "min (int (length e)) (dimension - int (length e)) = int (length e)"
    using a by simp
  then show ?thesis
    using lt by (subst pad_loop.simps) (simp add: slice_to_def)
qed

lemma pad_loop_16:
  assumes "length e = 16"
  shows "pad_loop e 1024 = Some (concat (replicate 64 e))"
proof -
  have ne: "e \<noteq> []" using assms by auto
  define e2 where "e2 = e @ e"
  define e3 where "e3 = e2 @ e2"
  define e4 where "e4 = e3 @ e3"
  define e5 where "e5 = e4 @ e4"
  define e6 where "e6 = e5 @ e5"
  define e7 where "e7 = e6 @ e6"
  have l: "length e2 = 32" "length e3 = 64" "length e4 = 128" "length e5 = 256"
    "length e6 = 512" "length e7 = 1024"
    by (simp_all add: e2_def e3_def e4_def e5_def e6_def e7_def assms)
  have "pad_loop e 1024 = pad_loop e2 1024"
    unfolding e2_def by (rule pad_loop_double) (simp_all add: assms ne)
  also have "\<dots> = pad_loop e3 1024"
    unfolding e3_def by (rule pad_loop_double) (use l in auto)
  also have "\<dots> = pad_loop e4 1024"
    unfolding e4_def by (rule pad_loop_double) (use l in auto)
  also have "\<dots> = pad_loop e5 1024"
    unfolding e5_def by (rule pad_loop_double) (use l in auto)
  also have "\<dots> = pad_loop e6 1024"
    unfolding e6_def by (rule pad_loop_double) (use l in auto)
  also have "\<dots> = pad_loop e7 1024"
    unfolding e7_def by (rule pad_loop_double) (use l in auto)
  also have "\<dots> = Some e7"
    by (rule pad_loop_done) (simp add: l)
  finally have "pad_loop e 1024 = Some e7" .
  moreover have "e7 = concat (replicate 64 e)"
  proof -
    have r: "concat (replicate (n + n) e) = concat (replicate n e) @ concat (replicate n e)" for n
      by (simp add: replicate_add)
    have "e2 = concat (replicate 2 e)" by (simp add: e2_def numeral_2_eq_2)
    then have "e3 = concat (replicate 4 e)" using r [of 2] by (simp add: e3_def)
    then have "e4 = concat (replicate 8 e)" using r [of 4] by (simp add: e4_def)
    then have "e5 = concat (replicate 16 e)" using r [of 8] by (simp add: e5_def)
    then have "e6 = concat (replicate 32 e)" using r [of 16] by (simp add: e6_def)
    then show "e7 = concat (replicate 64 e)" using r [of 32] by (simp add: e7_def)
  qed
  ultimately show ?thesis by simp
qed

lemma length_concat_replicate: "length (concat (replicate n xs)) = n * length xs"
  by (induction n) simp_all

lemma mock_embedding_value:
  assumes "str_encode text = Inr bs"
  shows "generate_mock_embedding text 1024 = Some (Inr (concat (replicate 64 (map byte_val (md5 bs)))))"
proof -
  have "hash_loop (hexdigest (md5 bs)) [] = Inr (map byte_val (md5 bs))"
    by (simp add: hash_loop_hexdigest)
  moreover have "pad_loop (map byte_val (md5 bs)) 1024 = Some (concat (replicate 64 (map byte_val (md5 bs))))"
    by (rule pad_loop_16) (simp add: length_md5)
  moreover have "slice_to (concat (replicate 64 (map byte_val (md5 bs)))) 1024 = concat (replicate 64 (map byte_val (md5 bs)))"
    by (simp add: slice_to_def length_concat_replicate length_md5)
  ultimately show ?thesis
    using assms by (simp add: generate_mock_embedding_def)
qed

section \<open>The search loop: auxiliary facts\<close>

lemma calc_sim_Inl: "calculate_similarity q e = Inl err \<longleftrightarrow> err = ValueError \<and> \<not> dims_ok q e"
  by (cases err) (auto simp: calculate_similarity_def dims_ok_def Let_def)

lemma calc_sim_Inr: "dims_ok q e \<Longrightarrow> \<exists>s. calculate_similarity q e = Inr s"
  by (cases "calculate_similarity q e") (auto simp: calc_sim_Inl)

lemma search_loop_acc:
  "search_loop field q photos acc =
     (case search_loop field q photos [] of Inl e \<Rightarrow> Inl e | Inr rs \<Rightarrow> Inr (acc @ rs))"
proof (induction photos arbitrary: acc)
  case Nil
  then show ?case by simp
next
  case (Cons p photos)
  show ?case
    using Cons.IH [of "acc"] Cons.IH [of "acc @ [make_photo_data p s]" for s]
      Cons.IH [of "[make_photo_data p s]" for s]
    by (auto split: option.splits sum.splits)
qed

lemma search_loop_Inr:
  "search_loop field q photos [] = Inr rs \<Longrightarrow> rs = qualifying field q photos"
proof (induction photos arbitrary: rs)
  case Nil
  then show ?case by (simp add: qualifying_def)
next
  case (Cons p photos)
  show ?case
  proof (cases "search_loop field q photos []")
    case (Inl e)
    with Cons.prems show ?thesis
      using search_loop_acc [of field q photos "[make_photo_data p s]" for s]
      by (auto split: option.splits sum.splits if_splits)
  next
    case (Inr rs')
    then have "rs' = qualifying field q photos" by (rule Cons.IH)
    with Cons.prems Inr show ?thesis
      using search_loop_acc [of field q photos "[make_photo_data p s]" for s]
      by (auto simp: qualifying_def entry_def split: option.splits sum.splits if_splits)
  qed
qed

lemma search_loop_total:
  "well_formed field q photos \<Longrightarrow> \<exists>rs. search_loop field q photos [] = Inr rs"
proof (induction photos)
  case Nil
  then show ?case by simp
next
  case (Cons p photos)
  then obtain rs where rs: "search_loop field q photos [] = Inr rs"
    by (auto simp: well_formed_def)
  show ?case
  proof (cases "field p")
    case None
    then show ?thesis using rs by simp
  next
    case (Some e)
    then have "dims_ok q e" using Cons.prems by (simp add: well_formed_def)
    then obtain s where "calculate_similarity q e = Inr s" using calc_sim_Inr by blast
    then show ?thesis
      using Some rs search_loop_acc [of field q photos "[make_photo_data p s]"]
      by simp
  qed
qed

lemma search_loop_filter:
  "search_loop field q (filter (\<lambda>p. field p \<noteq> None) photos) acc = search_loop field q photos acc"
  by (induction photos arbitrary: acc) (auto split: option.splits sum.splits)

lemma search_loop_abort:
  "p \<in> set photos \<Longrightarrow> field p = Some e \<Longrightarrow> \<not> dims_ok q e
     \<Longrightarrow> search_loop field q photos acc = Inl ValueError"
proof (induction photos arbitrary: acc)
  case Nil
  then show ?case by simp
next
  case (Cons a photos)
  show ?case
  proof (cases "a = p")
    case True
    then show ?thesis using Cons.prems by (simp add: calc_sim_Inl [THEN iffD2])
  next
    case False
    then have "p \<in> set photos" using Cons.prems by simp
    then have "search_loop field q photos acc' = Inl ValueError" for acc'
      using Cons.IH Cons.prems by blast
    then show ?thesis
      by (auto simp: calc_sim_Inl split: option.splits sum.splits)
  qed
qed

section \<open>The sort: auxiliary facts\<close>

lemma flt_irrefl: "\<not> flt a a"
  by (cases a) simp_all

lemma flt_fle: "flt a b \<Longrightarrow> fle a b"
  by (simp add: fle_def)

lemma not_flt_fle: "a \<noteq> NaN \<Longrightarrow> b \<noteq> NaN \<Longrightarrow> \<not> flt a b \<Longrightarrow> fle b a"
  by (cases a; cases b) (auto simp: fle_def)

lemma fle_trans: "fle a b \<Longrightarrow> fle b c \<Longrightarrow> fle a c"
  by (cases a; cases b; cases c) (auto simp: fle_def)

lemma mset_insert_result: "mset (insert_result x ys) = add_mset x (mset ys)"
  by (induction ys) simp_all

lemma mset_sort_results: "mset (sort_results rs) = mset rs"
  by (induction rs) (simp_all add: sort_results_def mset_insert_result)

lemma set_sort_results: "set (sort_results rs) = set rs"
  using mset_sort_results [of rs] by (metis set_mset_mset)

lemma length_sort_results: "length (sort_results rs) = length rs"
  using mset_sort_results [of rs] by (metis size_mset)

lemma filter_insert_result:
  "filter (\<lambda>r. pd_similarity r = k) (insert_result x ys) =
     (if pd_similarity x = k then x # filter (\<lambda>r. pd_similarity r = k) ys
      else filter (\<lambda>r. pd_similarity r = k) ys)"
  by (induction ys) (auto simp: flt_irrefl)

lemma sort_results_stable:
  "filter (\<lambda>r. pd_similarity r = k) (sort_results rs) = filter (\<lambda>r. pd_similarity r = k) rs"
  by (induction rs) (simp_all add: sort_results_def filter_insert_result)

lemma sorted_insert_result:
  assumes "sorted_wrt (\<lambda>a b. fle (pd_similarity b) (pd_similarity a)) ys"
    and "pd_similarity x \<noteq> NaN" and "\<forall>y\<in>set ys. pd_similarity y \<noteq> NaN"
  shows "sorted_wrt (\<lambda>a b. fle (pd_similarity b) (pd_similarity a)) (insert_result x ys)"
  using assms
proof (induction ys)
  case Nil
  then show ?case by simp
next
  case (Cons y ys)
  show ?case
  proof (cases "flt (pd_similarity x) (pd_similarity y)")
    case True
    have "set (insert_result x ys) = insert x (set ys)"
      using mset_insert_result [of x ys] by (metis set_mset_add_mset_insert set_mset_mset)
    then show ?thesis
      using True Cons by (auto simp: flt_fle)
  next
    case False
    then have xy: "fle (pd_similarity y) (pd_similarity x)"
      using Cons.prems by (intro not_flt_fle) simp_all
    have "fle (pd_similarity z) (pd_similarity x)" if "z \<in> set ys" for z
    proof -
      have "fle (pd_similarity z) (pd_similarity y)" using Cons.prems(1) that by simp
      then show ?thesis using xy fle_trans by blast
    qed
    then show ?thesis using False xy Cons.prems(1) by simp
  qed
qed

lemma sort_results_sorted:
  "\<forall>r\<in>set rs. pd_similarity r \<noteq> NaN \<Longrightarrow>
     sorted_wrt (\<lambda>a b. fle (pd_similarity b) (pd_similarity a)) (sort_results rs)"
proof (induction rs)
  case Nil
  then show ?case by (simp add: sort_results_def)
next
  case (Cons r rs)
  then have "sorted_wrt (\<lambda>a b. fle (pd_similarity b) (pd_similarity a)) (sort_results rs)"
    by simp
  moreover have "\<forall>y\<in>set (sort_results rs). pd_similarity y \<noteq> NaN"
    using Cons.prems by (simp add: set_sort_results)
  ultimately have "sorted_wrt (\<lambda>a b. fle (pd_similarity b) (pd_similarity a))
      (insert_result r (sort_results rs))"
    using Cons.prems by (intro sorted_insert_result) simp_all
  then show ?case by (simp add: sort_results_def)
qed

lemma round3_not_NaN: "d \<noteq> NaN \<Longrightarrow> round3 d \<noteq> NaN"
  by (cases d) (simp_all add: fl_not_NaN)

lemma entry_cases:
  "\<exists>e s. field p = Some e \<and> calculate_similarity q e = Inr s \<and> flt (fl (1 / 10)) s
      \<and> r = make_photo_data p s"
  if "r \<in> set (entry field q p)"
proof (cases "field p")
  case None
  then show ?thesis using that by (simp add: entry_def)
next
  case (Some e)
  show ?thesis
  proof (cases "calculate_similarity q e")
    case (Inl err)
    then show ?thesis using that Some by (simp add: entry_def)
  next
    case (Inr s)
    then show ?thesis using that Some by (auto simp: entry_def split: if_splits)
  qed
qed

lemma qualifying_not_NaN:
  assumes "r \<in> set (qualifying field q photos)"
  shows "pd_similarity r \<noteq> NaN"
proof -
  from assms obtain p where "r \<in> set (entry field q p)" by (auto simp: qualifying_def)
  then obtain s where s: "flt (fl (1 / 10)) s" "r = make_photo_data p s"
    using entry_cases by blast
  from s(1) have "s \<noteq> NaN" by (cases s) (simp_all add: fl_1_10)
  then show ?thesis using s(2) by (simp add: make_photo_data_def round3_not_NaN)
qed

lemma search_photos_Inr:
  assumes "search_photos field q photos limit = Inr resp"
  shows "search_loop field q photos [] = Inr (qualifying field q photos)"
    and "resp = \<lparr>resp_results = slice_to (sort_results (qualifying field q photos)) limit,
                 resp_totalResults = int (length (slice_to (sort_results (qualifying field q photos)) limit)),
                 resp_limit = limit\<rparr>"
proof -
  obtain rs where rs: "search_loop field q photos [] = Inr rs"
    using assms by (cases "search_loop field q photos []") (simp_all add: search_photos_def)
  then have "rs = qualifying field q photos" by (rule search_loop_Inr)
  with rs show "search_loop field q photos [] = Inr (qualifying field q photos)" by simp
  with assms show "resp = \<lparr>resp_results = slice_to (sort_results (qualifying field q photos)) limit,
                 resp_totalResults = int (length (slice_to (sort_results (qualifying field q photos)) limit)),
                 resp_limit = limit\<rparr>"
    by (simp add: search_photos_def Let_def)
qed

lemma set_slice_to: "set (slice_to xs n) \<subseteq> set xs"
  by (auto simp: slice_to_def dest: in_set_takeD)

lemma search_loop_skip_falsy:
  "field p = Some e \<Longrightarrow> falsy e \<Longrightarrow>
     search_loop field q (xs @ p # ys) acc = search_loop field q (xs @ ys) acc"
proof (induction xs arbitrary: acc)
  case Nil
  have "\<not> flt (fl (1 / 10)) (Fin 0)" by (simp add: fl_1_10)
  with Nil show ?case by (simp add: calculate_similarity_def)
next
  case (Cons x xs)
  then show ?case by (auto split: option.splits sum.splits)
qed

section \<open>Concrete runs\<close>


lemma str_encode_g: "str_encode (str_lit ''g'') = Inr [0x67]"
  by (simp add: str_lit_def surrogate_def utf8_char_def)




lemma mock_embedding_lone_surrogate:
  "generate_mock_embedding [0xD800] 1024 = Some (Inl UnicodeEncodeError)"
  by (simp add: generate_mock_embedding_def surrogate_def)

lemma sqrt_25: "sqrt 25 = 5"
  using real_sqrt_abs [of 5] by simp

lemma sqrt_100: "sqrt 100 = 10"
  using real_sqrt_abs [of 10] by simp

lemmas eval_defs = calculate_similarity_def np_dot_def linalg_norm_def sqrt_25 sqrt_100

lemma sim_examples:
  "calculate_similarity (PyList [1, 0]) (PyList [3, 4]) = Inr (fl (3 / 5))"
  "calculate_similarity (PyList [1, 0]) (PyList [1, 0]) = Inr (Fin 1)"
  "calculate_similarity (PyList [1, 0]) (PyList [4, 3]) = Inr (fl (4 / 5))"
  "calculate_similarity (PyList [1, 0]) (PyList [0, 1]) = Inr (Fin 0)"
  "calculate_similarity (PyList [1, 0]) (PyList [1, 0, 0]) = Inl ValueError"
  "calculate_similarity (PyList [1, 0, 0, 0]) (PyList [1, 9, 3, 3]) = Inr (fl (1 / 10))"
  by (simp_all add: eval_defs)

lemma round3_examples:
  "round3 (Fin 0) = Fin 0" "round3 (Fin 1) = Fin 1"
  "round3 (fl (3 / 5)) = fl (3 / 5)" "round3 (fl (4 / 5)) = fl (4 / 5)"
proof -
  show "round3 (Fin 0) = Fin 0" "round3 (Fin 1) = Fin 1"
    by (simp_all add: round_half_even_def)
  have "round_half_even (5404319552844595 / 9007199254740992 * 1000) = 600"
    by (simp add: round_half_even_def)
  then show "round3 (fl (3 / 5)) = fl (3 / 5)" by (simp add: fl_3_5)
  have "round_half_even (3602879701896397 / 4503599627370496 * 1000) = 800"
    by (simp add: round_half_even_def)
  then show "round3 (fl (4 / 5)) = fl (4 / 5)" by (simp add: fl_4_5)
qed

lemma make_stored: "make_photo_data (stored_photo i te ie) s = result_entry i (round3 s)"
  by (simp add: make_photo_data_def stored_photo_def result_entry_def get_default_def)

lemma search_loop_example:
  "search_loop textEmbedding (PyList [1, 0]) example_corpus [] =
     Inr [result_entry ''a'' (fl (3 / 5)), result_entry ''b'' (Fin 1),
          result_entry ''c'' (fl (4 / 5)), result_entry ''f'' (fl (3 / 5))]"
proof -
  have t: "flt (fl (1 / 10)) (fl (3 / 5))" "flt (fl (1 / 10)) (Fin 1)"
    "flt (fl (1 / 10)) (fl (4 / 5))" "\<not> flt (fl (1 / 10)) (Fin 0)"
    by (simp_all add: fl_1_10 fl_3_5 fl_4_5)
  have f: "textEmbedding (stored_photo i te ie) = te" for i te ie
    by (simp add: stored_photo_def)
  show ?thesis
    by (simp add: example_corpus_def f sim_examples t make_stored round3_examples del: round3.simps)
qed

lemma qualifying_example:
  "qualifying textEmbedding (PyList [1, 0]) example_corpus =
     [result_entry ''a'' (fl (3 / 5)), result_entry ''b'' (Fin 1),
      result_entry ''c'' (fl (4 / 5)), result_entry ''f'' (fl (3 / 5))]"
  using search_loop_Inr [OF search_loop_example] by simp

lemma sort_example:
  "sort_results [result_entry ''a'' (fl (3 / 5)), result_entry ''b'' (Fin 1),
      result_entry ''c'' (fl (4 / 5)), result_entry ''f'' (fl (3 / 5))]
     = [result_entry ''b'' (Fin 1), result_entry ''c'' (fl (4 / 5)),
        result_entry ''a'' (fl (3 / 5)), result_entry ''f'' (fl (3 / 5))]"
  by (simp add: sort_results_def result_entry_def fl_3_5 fl_4_5)

lemma search_example:
  "search_by_text (PyList [1, 0]) example_corpus 2 =
     Inr \<lparr>resp_results = [result_entry ''b'' (Fin 1), result_entry ''c'' (fl (4 / 5))],
          resp_totalResults = 2, resp_limit = 2\<rparr>"
  by (simp add: search_by_text_def search_photos_def search_loop_example sort_example slice_to_def)

lemma search_example_negative:
  "search_by_text (PyList [1, 0]) example_corpus (- 1) =
     Inr \<lparr>resp_results = [result_entry ''b'' (Fin 1), result_entry ''c'' (fl (4 / 5)),
                          result_entry ''a'' (fl (3 / 5))],
          resp_totalResults = 3, resp_limit = - 1\<rparr>"
  by (simp add: search_by_text_def search_photos_def search_loop_example sort_example slice_to_def)

lemma well_formed_example: "well_formed textEmbedding (PyList [1, 0]) example_corpus"
  by (simp add: well_formed_def example_corpus_def stored_photo_def dims_ok_def)

text \<open>Two scores that differ and round to the same thousandth.\<close>

lemma sqrt_big: "sqrt 25040026008001 = 5004001"
  using real_sqrt_abs [of 5004001] by simp

lemma fl_near_3_5:
  "fl (3004001 / 5004001) = Fin (168975008500955 / 281474976710656)"
  by (subst fl_eval [where e = "- 1"]) (simp_all add: round_half_even_def Let_def power_int_minus)

lemma sim_near_3_5:
  "calculate_similarity (PyList [1, 0]) (PyList [3004001, 4002000]) = Inr (fl (3004001 / 5004001))"
  by (simp add: calculate_similarity_def np_dot_def linalg_norm_def sqrt_big)

lemma round3_near_3_5: "round3 (fl (3004001 / 5004001)) = fl (3 / 5)"
proof -
  have "round_half_even (168975008500955 / 281474976710656 * 1000) = 600"
    by (simp add: round_half_even_def)
  then show ?thesis by (simp add: fl_near_3_5)
qed

lemma search_near_tie:
  "search_by_text (PyList [1, 0])
     [stored_photo ''a'' (Some (PyList [3, 4])) None,
      stored_photo ''b'' (Some (PyList [3004001, 4002000])) None] 1 =
     Inr \<lparr>resp_results = [result_entry ''a'' (fl (3 / 5))], resp_totalResults = 1, resp_limit = 1\<rparr>"
proof -
  have t: "flt (fl (1 / 10)) (fl (3 / 5))" "flt (fl (1 / 10)) (fl (3004001 / 5004001))"
    by (simp_all add: fl_1_10 fl_3_5 fl_near_3_5)
  have f: "textEmbedding (stored_photo i te ie) = te" for i te ie
    by (simp add: stored_photo_def)
  have "search_loop textEmbedding (PyList [1, 0])
     [stored_photo ''a'' (Some (PyList [3, 4])) None,
      stored_photo ''b'' (Some (PyList [3004001, 4002000])) None] [] =
     Inr [result_entry ''a'' (fl (3 / 5)), result_entry ''b'' (fl (3 / 5))]"
    by (simp add: f sim_examples sim_near_3_5 t make_stored round3_examples round3_near_3_5
        del: round3.simps)
  moreover have "sort_results [result_entry ''a'' (fl (3 / 5)), result_entry ''b'' (fl (3 / 5))]
      = [result_entry ''a'' (fl (3 / 5)), result_entry ''b'' (fl (3 / 5))]"
    by (simp add: sort_results_def result_entry_def flt_irrefl)
  ultimately show ?thesis
    by (simp add: search_by_text_def search_photos_def slice_to_def)
qed

text \<open>
  The score of \<open>[1, 1, 0, \<dots>]\<close> with itself: the norm is the double nearest to the square
  root of two, its square rounds to \<open>2 + 2\<^sup>-\<^sup>5\<^sup>1\<close>, and the quotient to \<open>1 - 2\<^sup>-\<^sup>5\<^sup>2\<close>.
\<close>

lemma fl_sqrt_2: "fl (sqrt 2) = Fin (6369051672525773 / 4503599627370496)"
proof -
  have s: "sqrt 2 * 2 ^ 52 = sqrt (2 ^ 105)"
  proof -
    have "sqrt (2 ^ 104) = (2 :: real) ^ 52"
      using real_sqrt_abs [of "2 ^ 52"] by (simp flip: power_mult)
    moreover have "(2 :: real) ^ 105 = 2 * 2 ^ 104" by simp
    ultimately show ?thesis by (simp only: real_sqrt_mult)
  qed
  have lo: "real_of_int 6369051672525773 - 1 / 2 < sqrt (2 ^ 105)"
    by (intro real_less_rsqrt) (simp add: power2_eq_square)
  have hi: "sqrt (2 ^ 105) < real_of_int 6369051672525773 + 1 / 2"
    by (intro real_less_lsqrt) (simp_all add: power2_eq_square)
  have r: "round_half_even (sqrt 2 * 2 ^ 52) = 6369051672525773"
    unfolding s using lo hi by (rule round_half_even_eq)
  have b: "1 \<le> sqrt 2" "sqrt 2 < 2"
    by (simp_all add: real_less_lsqrt)
  have r': "round_half_even (sqrt 2 * 4503599627370496) = 6369051672525773"
    using r by simp
  show ?thesis
    using b by (subst fl_eval [where e = 0]) (simp_all add: Let_def power_int_minus r')
qed

lemma np_dot_1_1: "np_dot [1, 1] [1, 1] = Fin 2"
  by (simp add: np_dot_def)

lemma fl_norm_sq:
  "fl (40564819207303346393761349247529 / 20282409603651670423947251286016)
     = Fin (4503599627370497 / 2251799813685248)"
  by (subst fl_eval [where e = 1]) (simp_all add: round_half_even_def Let_def power_int_minus)

lemma fl_quot:
  "fl (4503599627370496 / 4503599627370497) = Fin (4503599627370495 / 4503599627370496)"
  by (subst fl_eval [where e = "- 1"]) (simp_all add: round_half_even_def Let_def power_int_minus)

lemma similarity_1_1:
  "calculate_similarity (PyList [1, 1]) (PyList [1, 1]) = Inr (Fin (4503599627370495 / 4503599627370496))"
  by (simp add: calculate_similarity_def linalg_norm_def np_dot_1_1 fl_sqrt_2 fl_norm_sq fl_quot)

lemma foldl_zeros:
  assumes "fadd acc (Fin 0) = acc"
  shows "foldl (\<lambda>acc (x, y). fadd acc (fmul (Fin x) (Fin y))) acc (zip (replicate n 0) (replicate n 0)) = acc"
  using assms by (induction n) simp_all






lemma filter_example:
  "filter (\<lambda>p. textEmbedding p \<noteq> None) example_corpus =
     [stored_photo ''a'' (Some (PyList [3, 4])) None,
      stored_photo ''b'' (Some (PyList [1, 0])) None,
      stored_photo ''c'' (Some (PyList [4, 3])) None,
      stored_photo ''e'' (Some (PyList [0, 1])) None,
      stored_photo ''f'' (Some (PyList [3, 4])) None]"
  by (simp add: example_corpus_def stored_photo_def)

lemma linalg_norm_zero_examples: "linalg_norm [0, 0] = Fin 0" "linalg_norm [] = Fin 0"
  by (simp_all add: linalg_norm_def np_dot_def)

lemma quotient_by_zero_norm: "fdiv d (fmul (Fin 0) n) \<noteq> Fin r"
  by (cases d; cases n) simp_all


text \<open>
  The score 9/80: the double nearest to it lies above 0.1125, so it is rounded to 0.113.
\<close>

lemma fl_9_80: "fl (9 / 80) = Fin (8106479329266893 / 72057594037927936)"
  by (subst fl_eval [where e = "- 4"]) (simp_all add: round_half_even_def Let_def power_int_minus)

lemma round3_9_80: "round3 (fl (9 / 80)) = fl (113 / 1000)"
proof -
  have "round_half_even (8106479329266893 / 72057594037927936 * 1000) = 113"
    by (simp add: round_half_even_def)
  then show ?thesis by (simp add: fl_9_80)
qed

text \<open>
  A vector that is not zero and whose square underflows: its norm is computed as zero and
  its score with itself is 0.0.
\<close>

lemma fl_underflow: "fl (1 / 2 ^ 700 * (1 / 2 ^ 700)) = Fin 0"
proof -
  have "fl (1 / 2 ^ 1400) = Fin 0"
    by (subst fl_eval [where e = "- 1400"]) (simp_all add: round_half_even_def Let_def power_int_minus)
  moreover have "(1 / 2 ^ 700 * (1 / 2 ^ 700) :: real) = 1 / 2 ^ 1400" by (simp flip: power_add)
  ultimately show ?thesis by (simp only:)
qed

lemma similarity_underflow_gen:
  assumes "fl (x * x) = Fin 0"
  shows "linalg_norm (x # replicate 1023 0) = Fin 0
     \<and> calculate_similarity (PyList (x # replicate 1023 0)) (PyList (x # replicate 1023 0))
         = Inr (Fin 0)"
  using foldl_zeros [of "Fin 0" 1023]
  by (simp add: calculate_similarity_def linalg_norm_def np_dot_def assms)

lemma similarity_underflow:
  "linalg_norm (1 / 2 ^ 700 # replicate 1023 0) = Fin 0
   \<and> calculate_similarity (PyList (1 / 2 ^ 700 # replicate 1023 0))
        (PyList (1 / 2 ^ 700 # replicate 1023 0)) = Inr (Fin 0)"
  by (rule similarity_underflow_gen [OF fl_underflow])

section \<open>The components of a fallback vector\<close>




section \<open>The length of a fallback vector\<close>

text \<open>
  C6: for every input string that has a UTF-8 encoding, whatever its length,
  \<^const>\<open>generate_mock_embedding\<close> with the default dimension returns, and the vector it
  returns has exactly 1024 components.
\<close>

theorem mock_embedding_length:
  assumes "\<forall>c\<in>set text. \<not> surrogate c"
  shows "\<exists>v. generate_mock_embedding text 1024 = Some (Inr v) \<and> length v = 1024"
proof -
  obtain bs where "str_encode text = Inr bs"
    using str_encode_ok [OF assms] by blast
  then show ?thesis
    using mock_embedding_value [of "text" bs]
    by (simp add: length_concat_replicate length_md5)
qed

theorem mock_embedding_length_witness:
  "str_encode (str_lit ''g'') = Inr [0x67]
   \<and> (\<exists>v. generate_mock_embedding (str_lit ''g'') 1024 = Some (Inr v) \<and> length v = 1024)
   \<and> (\<exists>v. generate_mock_embedding (replicate 1000 97) 1024 = Some (Inr v) \<and> length v = 1024)"
proof -
  have a: "\<forall>c\<in>set (str_lit ''g''). \<not> surrogate c"
    by (simp add: str_lit_def surrogate_def)
  have b: "\<forall>c\<in>set (replicate 1000 (97 :: nat)). \<not> surrogate c"
    by (simp add: surrogate_def)
  show ?thesis
    using str_encode_g mock_embedding_length [OF a] mock_embedding_length [OF b] by blast
qed

section \<open>The fallback embedding of an image\<close>

text \<open>
  C8: without an API key, \<^const>\<open>generate_image_embedding\<close> gives the same result for any two
  image payloads with the same description: the result is the fallback vector of the
  description followed by the marker (of the marker alone when the description is empty).
\<close>

theorem fallback_image_embedding_ignores_image:
  assumes "no_api_key voyage_api_key"
  shows "generate_image_embedding voyage_api_key post image1 descr
           = generate_image_embedding voyage_api_key post image2 descr
         \<and> generate_image_embedding voyage_api_key post image1 descr
           = map_option (map_sum id PyList)
               (generate_mock_embedding
                  (if descr \<noteq> [] then descr @ str_lit '' [IMAGE_CONTENT]''
                   else str_lit ''[IMAGE_CONTENT]'') 1024)"
  using assms by (simp add: generate_image_embedding_def mock_of_description_def)

theorem fallback_image_embedding_ignores_image_witness:
  "no_api_key None
   \<and> generate_image_embedding None (\<lambda>k c. None) (str_lit ''data:image/jpeg;base64,AAAA'') (str_lit ''sunset'')
       = generate_image_embedding None (\<lambda>k c. None) (str_lit ''data:image/jpeg;base64,BBBB'') (str_lit ''sunset'')"
proof -
  have a: "no_api_key None" by (simp add: no_api_key_def)
  show ?thesis
    using a fallback_image_embedding_ignores_image [OF a, of "\<lambda>k c. None"
        "str_lit ''data:image/jpeg;base64,AAAA''" "str_lit ''sunset''" "str_lit ''data:image/jpeg;base64,BBBB''"]
    by simp
qed

section \<open>The threshold\<close>

text \<open>
  A stored vector whose cosine similarity with the query is computed as the double 0.1,
  the very value of the literal: the loop leaves the record out.
\<close>

theorem threshold_score_excluded:
  "calculate_similarity (PyList [1, 0, 0, 0]) (PyList [1, 9, 3, 3]) = Inr (fl (1 / 10))
   \<and> fl (1 / 10) = Fin (3602879701896397 / 36028797018963968)
   \<and> search_loop textEmbedding (PyList [1, 0, 0, 0])
        [stored_photo ''a'' (Some (PyList [1, 9, 3, 3])) None] [] = Inr []"
  by (simp add: sim_examples fl_1_10) (simp add: stored_photo_def sim_examples fl_1_10)

text \<open>
  C1, as the code has it: when the loop completes, its result list consists, in corpus
  order, of one entry for each record that has the requested embedding and whose score is
  strictly greater than 0.1, and of nothing else; a record whose score equals 0.1 is left
  out.
\<close>

theorem included_iff_above_threshold:
  assumes "search_loop field q photos [] = Inr rs"
  shows "rs = concat (map (entry field q) photos)
         \<and> (\<forall>p\<in>set photos. \<forall>e s. field p = Some e \<and> calculate_similarity q e = Inr s \<longrightarrow>
               entry field q p = (if flt (fl (1 / 10)) s then [make_photo_data p s] else []))"
  using search_loop_Inr [OF assms] by (simp add: qualifying_def entry_def)

theorem included_iff_above_threshold_witness:
  "search_loop textEmbedding (PyList [1, 0]) example_corpus [] =
     Inr [result_entry ''a'' (fl (3 / 5)), result_entry ''b'' (Fin 1),
          result_entry ''c'' (fl (4 / 5)), result_entry ''f'' (fl (3 / 5))]
   \<and> [result_entry ''a'' (fl (3 / 5)), result_entry ''b'' (Fin 1),
          result_entry ''c'' (fl (4 / 5)), result_entry ''f'' (fl (3 / 5))]
       = concat (map (entry textEmbedding (PyList [1, 0])) example_corpus)
   \<and> entry textEmbedding (PyList [1, 0]) (stored_photo ''e'' (Some (PyList [0, 1])) None) = []
   \<and> entry textEmbedding (PyList [1, 0]) (stored_photo ''c'' (Some (PyList [4, 3])) None)
       = [result_entry ''c'' (fl (4 / 5))]"
proof -
  note w = included_iff_above_threshold [OF search_loop_example]
  have e: "stored_photo ''e'' (Some (PyList [0, 1])) None \<in> set example_corpus"
    and c: "stored_photo ''c'' (Some (PyList [4, 3])) None \<in> set example_corpus"
    by (simp_all add: example_corpus_def)
  have fe: "textEmbedding (stored_photo ''e'' (Some (PyList [0, 1])) None) = Some (PyList [0, 1])"
    and fc: "textEmbedding (stored_photo ''c'' (Some (PyList [4, 3])) None) = Some (PyList [4, 3])"
    by (simp_all add: stored_photo_def)
  have t: "\<not> flt (fl (1 / 10)) (Fin 0)" "flt (fl (1 / 10)) (fl (4 / 5))"
    by (simp_all add: fl_1_10 fl_4_5)
  from w e fe sim_examples(4) t(1)
  have "entry textEmbedding (PyList [1, 0]) (stored_photo ''e'' (Some (PyList [0, 1])) None) = []"
    by fastforce
  moreover from w c fc sim_examples(3) t(2)
  have "entry textEmbedding (PyList [1, 0]) (stored_photo ''c'' (Some (PyList [4, 3])) None)
       = [result_entry ''c'' (fl (4 / 5))]"
    by (fastforce simp: make_stored round3_examples simp del: round3.simps)
  ultimately show ?thesis using w search_loop_example by simp
qed

section \<open>A stored embedding of the wrong dimension\<close>

text \<open>
  A corpus of a good record and one whose embedding has three components where the query
  has two: the handler takes its \<^verbatim>\<open>except\<close> branch.
\<close>

theorem wrong_dimension_aborts_search:
  "search_by_text (PyList [1, 0])
     [stored_photo ''a'' (Some (PyList [1, 0])) None,
      stored_photo ''b'' (Some (PyList [1, 0, 0])) None] 20 = Inl ValueError"
proof -
  have "flt (fl (1 / 10)) (Fin 1)" by (simp add: fl_1_10)
  then show ?thesis
    by (simp add: search_by_text_def search_photos_def stored_photo_def sim_examples)
qed

text \<open>
  C2, as the code has it: a record whose stored embedding is non-empty and differs in
  length from the non-empty query vector makes the whole search fail with the error
  response, wherever it stands in the corpus and whatever the limit; only a record whose
  stored embedding is empty or \<^verbatim>\<open>None\<close> is passed over, the search giving what it gives
  without that record.
\<close>

theorem wrong_dimension_search_fails:
  "(p \<in> set photos \<and> field p = Some (PyList v) \<and> v \<noteq> [] \<and> u \<noteq> [] \<and> length v \<noteq> length u
      \<longrightarrow> search_photos field (PyList u) photos limit = Inl ValueError)
   \<and> (field p = Some e \<and> falsy e
      \<longrightarrow> search_photos field q (xs @ p # ys) limit = search_photos field q (xs @ ys) limit)"
proof (intro conjI impI)
  assume a: "p \<in> set photos \<and> field p = Some (PyList v) \<and> v \<noteq> [] \<and> u \<noteq> [] \<and> length v \<noteq> length u"
  then have "\<not> dims_ok (PyList u) (PyList v)" by (auto simp: dims_ok_def)
  with a have "search_loop field (PyList u) photos [] = Inl ValueError"
    using search_loop_abort by blast
  then show "search_photos field (PyList u) photos limit = Inl ValueError"
    by (simp add: search_photos_def)
next
  assume "field p = Some e \<and> falsy e"
  then show "search_photos field q (xs @ p # ys) limit = search_photos field q (xs @ ys) limit"
    by (simp add: search_photos_def search_loop_skip_falsy)
qed

theorem wrong_dimension_search_fails_witness:
  "search_photos textEmbedding (PyList [1, 0])
     [stored_photo ''a'' (Some (PyList [1, 0])) None,
      stored_photo ''b'' (Some (PyList [1, 0, 0])) None] 20 = Inl ValueError
   \<and> search_photos textEmbedding (PyList [1, 0])
       ([stored_photo ''a'' (Some (PyList [1, 0])) None]
          @ stored_photo ''z'' (Some (PyList [])) None # [stored_photo ''c'' (Some (PyList [4, 3])) None]) 20
     = search_photos textEmbedding (PyList [1, 0])
       ([stored_photo ''a'' (Some (PyList [1, 0])) None] @ [stored_photo ''c'' (Some (PyList [4, 3])) None]) 20"
proof -
  note w = wrong_dimension_search_fails [of "stored_photo ''b'' (Some (PyList [1, 0, 0])) None"
      "[stored_photo ''a'' (Some (PyList [1, 0])) None, stored_photo ''b'' (Some (PyList [1, 0, 0])) None]"
      textEmbedding "[1, 0, 0]" "[1, 0]" 20]
  note w2 = wrong_dimension_search_fails [of "stored_photo ''z'' (Some (PyList [])) None"
      "[]" textEmbedding "[]" "[]" 20 "PyList []" "PyList [1, 0]"
      "[stored_photo ''a'' (Some (PyList [1, 0])) None]" "[stored_photo ''c'' (Some (PyList [4, 3])) None]"]
  have "textEmbedding (stored_photo ''b'' (Some (PyList [1, 0, 0])) None) = Some (PyList [1, 0, 0])"
    "textEmbedding (stored_photo ''z'' (Some (PyList [])) None) = Some (PyList [])"
    by (simp_all add: stored_photo_def)
  with w w2 show ?thesis by simp
qed

section \<open>Ranking and truncation\<close>

text \<open>
  Two runs. With limit 0, a corpus of one record of the wrong length is answered with the
  error response, not with an empty list. And of two records with the scores 0.6 and
  0.60032, in this order in the corpus, the search with limit 1 returns the first: both
  scores round to 0.6, the sort sees a tie and keeps the corpus order.
\<close>

theorem ranking_is_by_rounded_score:
  "search_by_text (PyList [1, 0]) [stored_photo ''a'' (Some (PyList [1, 0, 0])) None] 0
     = Inl ValueError
   \<and> calculate_similarity (PyList [1, 0]) (PyList [3, 4]) = Inr (fl (3 / 5))
   \<and> calculate_similarity (PyList [1, 0]) (PyList [3004001, 4002000])
       = Inr (fl (3004001 / 5004001))
   \<and> flt (fl (3 / 5)) (fl (3004001 / 5004001))
   \<and> search_by_text (PyList [1, 0])
       [stored_photo ''a'' (Some (PyList [3, 4])) None,
        stored_photo ''b'' (Some (PyList [3004001, 4002000])) None] 1 =
       Inr \<lparr>resp_results = [result_entry ''a'' (fl (3 / 5))],
            resp_totalResults = 1, resp_limit = 1\<rparr>"
proof -
  have "search_by_text (PyList [1, 0]) [stored_photo ''a'' (Some (PyList [1, 0, 0])) None] 0
     = Inl ValueError"
    by (simp add: search_by_text_def search_photos_def stored_photo_def sim_examples)
  moreover have "flt (fl (3 / 5)) (fl (3004001 / 5004001))"
    by (simp add: fl_3_5 fl_near_3_5)
  ultimately show ?thesis
    using sim_examples(1) sim_near_3_5 search_near_tie by blast
qed

text \<open>
  C4, as the code has it. When every stored embedding of the requested key can be compared
  with the query (it is \<^verbatim>\<open>None\<close>, empty or of the query's length), the search succeeds, for
  every limit, and its result list is \<^verbatim>\<open>ranked[:limit]\<close>, for a limit that is not negative
  the first \<open>limit\<close> elements, of a list that holds exactly the qualifying records, is in
  descending order of the \<^verbatim>\<open>similarity\<close> entry (the score rounded to three decimals), and
  keeps records with equal \<^verbatim>\<open>similarity\<close> in corpus order; with limit 0, or an empty
  corpus, the result list is empty. For any other corpus the search is answered with the
  error response, whatever the limit.
\<close>

theorem search_ranked_prefix:
  "(well_formed field q photos \<longrightarrow>
      (\<exists>resp ranked. search_photos field q photos limit = Inr resp
         \<and> resp_results resp = slice_to ranked limit
         \<and> (0 \<le> limit \<longrightarrow> resp_results resp = take (nat limit) ranked)
         \<and> mset ranked = mset (qualifying field q photos)
         \<and> sorted_wrt (\<lambda>a b. fle (pd_similarity b) (pd_similarity a)) ranked
         \<and> (\<forall>k. filter (\<lambda>r. pd_similarity r = k) ranked
                  = filter (\<lambda>r. pd_similarity r = k) (qualifying field q photos))
         \<and> (limit = 0 \<or> photos = [] \<longrightarrow> resp_results resp = [])))
   \<and> (\<not> well_formed field q photos \<longrightarrow> search_photos field q photos limit = Inl ValueError)"
proof (intro conjI impI)
  assume wf: "well_formed field q photos"
  obtain rs where rs: "search_loop field q photos [] = Inr rs"
    using search_loop_total [OF wf] by blast
  then have q: "rs = qualifying field q photos" by (rule search_loop_Inr)
  let ?ranked = "sort_results (qualifying field q photos)"
  let ?resp = "\<lparr>resp_results = slice_to ?ranked limit,
                resp_totalResults = int (length (slice_to ?ranked limit)),
                resp_limit = limit\<rparr>"
  have 1: "search_photos field q photos limit = Inr ?resp"
    using rs q by (simp add: search_photos_def Let_def)
  have 2: "photos = [] \<longrightarrow> ?ranked = []"
    by (simp add: qualifying_def sort_results_def)
  have 3: "sorted_wrt (\<lambda>a b. fle (pd_similarity b) (pd_similarity a)) ?ranked"
    by (intro sort_results_sorted ballI qualifying_not_NaN)
  have "resp_results ?resp = slice_to ?ranked limit
     \<and> (0 \<le> limit \<longrightarrow> resp_results ?resp = take (nat limit) ?ranked)
     \<and> mset ?ranked = mset (qualifying field q photos)
     \<and> sorted_wrt (\<lambda>a b. fle (pd_similarity b) (pd_similarity a)) ?ranked
     \<and> (\<forall>k. filter (\<lambda>r. pd_similarity r = k) ?ranked
              = filter (\<lambda>r. pd_similarity r = k) (qualifying field q photos))
     \<and> (limit = 0 \<or> photos = [] \<longrightarrow> resp_results ?resp = [])"
    using 2 3 by (auto simp: mset_sort_results sort_results_stable slice_to_def)
  with 1 show "\<exists>resp ranked. search_photos field q photos limit = Inr resp
         \<and> resp_results resp = slice_to ranked limit
         \<and> (0 \<le> limit \<longrightarrow> resp_results resp = take (nat limit) ranked)
         \<and> mset ranked = mset (qualifying field q photos)
         \<and> sorted_wrt (\<lambda>a b. fle (pd_similarity b) (pd_similarity a)) ranked
         \<and> (\<forall>k. filter (\<lambda>r. pd_similarity r = k) ranked
                  = filter (\<lambda>r. pd_similarity r = k) (qualifying field q photos))
         \<and> (limit = 0 \<or> photos = [] \<longrightarrow> resp_results resp = [])"
    by blast
next
  assume "\<not> well_formed field q photos"
  then obtain p e where "p \<in> set photos" "field p = Some e" "\<not> dims_ok q e"
    by (auto simp: well_formed_def)
  then have "search_loop field q photos [] = Inl ValueError" by (rule search_loop_abort)
  then show "search_photos field q photos limit = Inl ValueError"
    by (simp add: search_photos_def)
qed

theorem search_ranked_prefix_witness:
  "well_formed textEmbedding (PyList [1, 0]) example_corpus
   \<and> (\<exists>resp ranked. search_photos textEmbedding (PyList [1, 0]) example_corpus 2 = Inr resp
         \<and> resp_results resp = slice_to ranked 2
         \<and> (0 \<le> (2 :: int) \<longrightarrow> resp_results resp = take (nat 2) ranked)
         \<and> mset ranked = mset (qualifying textEmbedding (PyList [1, 0]) example_corpus)
         \<and> sorted_wrt (\<lambda>a b. fle (pd_similarity b) (pd_similarity a)) ranked
         \<and> (\<forall>k. filter (\<lambda>r. pd_similarity r = k) ranked
                  = filter (\<lambda>r. pd_similarity r = k)
                      (qualifying textEmbedding (PyList [1, 0]) example_corpus))
         \<and> ((2 :: int) = 0 \<or> example_corpus = [] \<longrightarrow> resp_results resp = []))
   \<and> search_by_text (PyList [1, 0]) example_corpus 2 =
       Inr \<lparr>resp_results = [result_entry ''b'' (Fin 1), result_entry ''c'' (fl (4 / 5))],
            resp_totalResults = 2, resp_limit = 2\<rparr>
   \<and> \<not> well_formed textEmbedding (PyList [1, 0])
         [stored_photo ''a'' (Some (PyList [1, 0, 0])) None]
   \<and> search_photos textEmbedding (PyList [1, 0])
         [stored_photo ''a'' (Some (PyList [1, 0, 0])) None] 0 = Inl ValueError"
proof -
  have n: "\<not> well_formed textEmbedding (PyList [1, 0])
         [stored_photo ''a'' (Some (PyList [1, 0, 0])) None]"
    by (simp add: well_formed_def stored_photo_def dims_ok_def)
  show ?thesis
    using well_formed_example n search_example
      search_ranked_prefix [of textEmbedding "PyList [1, 0]" example_corpus 2]
      search_ranked_prefix [of textEmbedding "PyList [1, 0]"
        "[stored_photo ''a'' (Some (PyList [1, 0, 0])) None]" 0]
    by blast
qed

section \<open>Records without the requested embedding\<close>

text \<open>
  C5: a record that lacks the requested key (\<^verbatim>\<open>textEmbedding\<close> in the text search,
  \<^verbatim>\<open>imageEmbedding\<close> in the image search) is never scored and never appears: the handler
  answers exactly as on the corpus without such records, for every limit, and every
  result it returns is the entry of a record that has the key and was scored.
\<close>

theorem missing_field_never_scored:
  "search_photos field q photos limit
     = search_photos field q (filter (\<lambda>p. field p \<noteq> None) photos) limit
   \<and> (\<forall>resp. search_photos field q photos limit = Inr resp \<longrightarrow>
        (\<forall>r\<in>set (resp_results resp). \<exists>p\<in>set photos. \<exists>e s.
            field p = Some e \<and> calculate_similarity q e = Inr s \<and> r = make_photo_data p s))"
proof (intro conjI allI impI ballI)
  show "search_photos field q photos limit
     = search_photos field q (filter (\<lambda>p. field p \<noteq> None) photos) limit"
    unfolding search_photos_def by (simp only: search_loop_filter)
next
  fix resp r
  assume ok: "search_photos field q photos limit = Inr resp" and r: "r \<in> set (resp_results resp)"
  from search_photos_Inr(2) [OF ok] r
  have "r \<in> set (slice_to (sort_results (qualifying field q photos)) limit)" by simp
  then have "r \<in> set (qualifying field q photos)"
    using set_slice_to [of "sort_results (qualifying field q photos)" limit]
    by (auto simp: set_sort_results)
  then obtain p where p: "p \<in> set photos" "r \<in> set (entry field q p)"
    by (auto simp: qualifying_def)
  from entry_cases [OF p(2)] p(1)
  show "\<exists>p\<in>set photos. \<exists>e s.
            field p = Some e \<and> calculate_similarity q e = Inr s \<and> r = make_photo_data p s"
    by blast
qed

theorem missing_field_never_scored_witness:
  "search_photos textEmbedding (PyList [1, 0]) example_corpus 2
     = search_photos textEmbedding (PyList [1, 0])
         [stored_photo ''a'' (Some (PyList [3, 4])) None,
          stored_photo ''b'' (Some (PyList [1, 0])) None,
          stored_photo ''c'' (Some (PyList [4, 3])) None,
          stored_photo ''e'' (Some (PyList [0, 1])) None,
          stored_photo ''f'' (Some (PyList [3, 4])) None] 2
   \<and> search_photos textEmbedding (PyList [1, 0]) example_corpus 2 =
       Inr \<lparr>resp_results = [result_entry ''b'' (Fin 1), result_entry ''c'' (fl (4 / 5))],
            resp_totalResults = 2, resp_limit = 2\<rparr>
   \<and> (\<exists>p\<in>set example_corpus. \<exists>e s.
          textEmbedding p = Some e \<and> calculate_similarity (PyList [1, 0]) e = Inr s
          \<and> result_entry ''b'' (Fin 1) = make_photo_data p s)
   \<and> (\<exists>p\<in>set example_corpus. \<exists>e s.
          textEmbedding p = Some e \<and> calculate_similarity (PyList [1, 0]) e = Inr s
          \<and> result_entry ''c'' (fl (4 / 5)) = make_photo_data p s)"
proof -
  have s: "search_photos textEmbedding (PyList [1, 0]) example_corpus 2 =
       Inr \<lparr>resp_results = [result_entry ''b'' (Fin 1), result_entry ''c'' (fl (4 / 5))],
            resp_totalResults = 2, resp_limit = 2\<rparr>"
    using search_example by (simp add: search_by_text_def)
  from missing_field_never_scored [of textEmbedding "PyList [1, 0]" example_corpus 2]
  have 1: "search_photos textEmbedding (PyList [1, 0]) example_corpus 2
     = search_photos textEmbedding (PyList [1, 0]) (filter (\<lambda>p. textEmbedding p \<noteq> None) example_corpus) 2"
    and 2: "\<forall>resp. search_photos textEmbedding (PyList [1, 0]) example_corpus 2 = Inr resp \<longrightarrow>
        (\<forall>r\<in>set (resp_results resp). \<exists>p\<in>set example_corpus. \<exists>e s.
            textEmbedding p = Some e \<and> calculate_similarity (PyList [1, 0]) e = Inr s
            \<and> r = make_photo_data p s)"
    by blast+
  from 2 s have 3: "\<forall>r\<in>set [result_entry ''b'' (Fin 1), result_entry ''c'' (fl (4 / 5))].
            \<exists>p\<in>set example_corpus. \<exists>e s.
            textEmbedding p = Some e \<and> calculate_similarity (PyList [1, 0]) e = Inr s
            \<and> r = make_photo_data p s"
    by fastforce
  have b: "\<exists>p\<in>set example_corpus. \<exists>e s.
          textEmbedding p = Some e \<and> calculate_similarity (PyList [1, 0]) e = Inr s
          \<and> result_entry ''b'' (Fin 1) = make_photo_data p s"
    using 3 by simp
  have c: "\<exists>p\<in>set example_corpus. \<exists>e s.
          textEmbedding p = Some e \<and> calculate_similarity (PyList [1, 0]) e = Inr s
          \<and> result_entry ''c'' (fl (4 / 5)) = make_photo_data p s"
    using 3 by simp
  from 1 have "search_photos textEmbedding (PyList [1, 0]) example_corpus 2
     = search_photos textEmbedding (PyList [1, 0])
         [stored_photo ''a'' (Some (PyList [3, 4])) None,
          stored_photo ''b'' (Some (PyList [1, 0])) None,
          stored_photo ''c'' (Some (PyList [4, 3])) None,
          stored_photo ''e'' (Some (PyList [0, 1])) None,
          stored_photo ''f'' (Some (PyList [3, 4])) None] 2"
    by (simp only: filter_example)
  with s b c show ?thesis by blast
qed

section \<open>Degenerate vectors\<close>

text \<open>
  A vector of norm zero against a vector of another length: \<^verbatim>\<open>np.dot\<close> raises before the
  norms are looked at.
\<close>

theorem zero_norm_wrong_length_raises:
  "linalg_norm [0, 0] = Fin 0
   \<and> calculate_similarity (PyList [0, 0]) (PyList [1, 2, 3]) = Inl ValueError"
  by (simp add: linalg_norm_zero_examples calculate_similarity_def)

text \<open>
  C7, as the code has it: when either embedding is \<^verbatim>\<open>None\<close> or empty, and when the two
  vectors have the same length and the norm of either is zero, \<^const>\<open>calculate_similarity\<close>
  raises nothing and returns 0.0, not NaN. (It is the test of the norms that gives 0.0:
  a quotient by a norm of zero is NaN or infinite, \<open>quotient_by_zero_norm\<close>.)
\<close>

theorem similarity_degenerate_zero:
  "(falsy a \<or> falsy b \<longrightarrow> calculate_similarity a b = Inr (Fin 0))
   \<and> (length xs = length ys \<and> (linalg_norm xs = Fin 0 \<or> linalg_norm ys = Fin 0)
        \<longrightarrow> calculate_similarity (PyList xs) (PyList ys) = Inr (Fin 0))"
  by (auto simp: calculate_similarity_def Let_def)

theorem similarity_degenerate_zero_witness:
  "falsy PyNone \<and> falsy (PyList [])
   \<and> calculate_similarity PyNone (PyList [3, 4]) = Inr (Fin 0)
   \<and> calculate_similarity (PyList [3, 4]) (PyList []) = Inr (Fin 0)
   \<and> length [0, 0 :: real] = length [3, 4 :: real] \<and> linalg_norm [0, 0] = Fin 0
   \<and> calculate_similarity (PyList [0, 0]) (PyList [3, 4]) = Inr (Fin 0)
   \<and> calculate_similarity (PyList [3, 4]) (PyList [0, 0]) = Inr (Fin 0)"
  using similarity_degenerate_zero [of PyNone "PyList [3, 4]" "[0, 0]" "[3, 4]"]
    similarity_degenerate_zero [of "PyList [3, 4]" "PyList []" "[3, 4]" "[0, 0]"]
    linalg_norm_zero_examples
  by simp

section \<open>The score of a vector with itself\<close>




section \<open>The count in the response\<close>

text \<open>
  With limit \<open>- 1\<close> and four qualifying records the slice drops the last one, and
  \<^verbatim>\<open>totalResults\<close> is 3, which is not at most the limit.
\<close>

theorem total_results_exceeds_negative_limit:
  "search_by_text (PyList [1, 0]) example_corpus (- 1) =
     Inr \<lparr>resp_results = [result_entry ''b'' (Fin 1), result_entry ''c'' (fl (4 / 5)),
                          result_entry ''a'' (fl (3 / 5))],
          resp_totalResults = 3, resp_limit = - 1\<rparr>
   \<and> \<not> (3 :: int) \<le> - 1"
  using search_example_negative by simp

text \<open>
  C10, as the code has it: in a successful response, \<^verbatim>\<open>totalResults\<close> is the length of the
  result list after the slice, not the number of qualifying records. For a limit that is
  not negative it is the smaller of the limit and the number of qualifying records, hence
  at most the limit; for a negative limit it is the number of qualifying records plus the
  limit, or 0 if that is negative, and so exceeds the limit.
\<close>

theorem total_results_is_truncated_length:
  assumes "search_photos field q photos limit = Inr resp"
  shows "resp_totalResults resp = int (length (resp_results resp))
     \<and> resp_results resp = slice_to (sort_results (qualifying field q photos)) limit
     \<and> (0 \<le> limit \<longrightarrow>
          resp_totalResults resp = min limit (int (length (qualifying field q photos)))
          \<and> resp_totalResults resp \<le> limit)
     \<and> (limit < 0 \<longrightarrow>
          resp_totalResults resp = max 0 (int (length (qualifying field q photos)) + limit)
          \<and> limit < resp_totalResults resp)"
proof -
  note r = search_photos_Inr(2) [OF assms]
  have 1: "resp_totalResults resp = int (length (resp_results resp))"
    by (subst (1 2) r) simp
  have 2: "resp_results resp = slice_to (sort_results (qualifying field q photos)) limit"
    by (subst r) simp
  have 3: "resp_totalResults resp = min limit (int (length (qualifying field q photos)))" if "0 \<le> limit"
  proof -
    have "int (min (nat limit) n) = min limit (int n)" for n
      using that by (cases "n \<le> nat limit") (simp_all add: min_def, linarith+)
    then show ?thesis
      using that 1 2 by (simp add: slice_to_def length_sort_results min.commute)
  qed
  have 4: "resp_totalResults resp = max 0 (int (length (qualifying field q photos)) + limit)"
    if "limit < 0"
  proof -
    have "int (min n (nat (int n + limit))) = max 0 (int n + limit)" for n
      using that by (cases "0 \<le> int n + limit") (simp_all add: min_def max_def)
    then show ?thesis
      using that 1 2 by (simp add: slice_to_def length_sort_results min.commute)
  qed
  have 5: "limit < resp_totalResults resp" if "limit < 0"
    using that 1 by linarith
  show ?thesis using 1 2 3 4 5 by simp
qed

theorem total_results_is_truncated_length_witness:
  "search_photos textEmbedding (PyList [1, 0]) example_corpus 2 =
       Inr \<lparr>resp_results = [result_entry ''b'' (Fin 1), result_entry ''c'' (fl (4 / 5))],
            resp_totalResults = 2, resp_limit = 2\<rparr>
   \<and> length (qualifying textEmbedding (PyList [1, 0]) example_corpus) = 4
   \<and> (2 :: int) = int (length [result_entry ''b'' (Fin 1), result_entry ''c'' (fl (4 / 5))])
   \<and> (0 :: int) \<le> 2
   \<and> (2 :: int) = min 2 (int (length (qualifying textEmbedding (PyList [1, 0]) example_corpus)))
   \<and> search_photos textEmbedding (PyList [1, 0]) example_corpus (- 1) =
       Inr \<lparr>resp_results = [result_entry ''b'' (Fin 1), result_entry ''c'' (fl (4 / 5)),
                            result_entry ''a'' (fl (3 / 5))],
            resp_totalResults = 3, resp_limit = - 1\<rparr>
   \<and> (3 :: int) = max 0 (int (length (qualifying textEmbedding (PyList [1, 0]) example_corpus)) + - 1)"
proof -
  have s: "search_photos textEmbedding (PyList [1, 0]) example_corpus 2 =
       Inr \<lparr>resp_results = [result_entry ''b'' (Fin 1), result_entry ''c'' (fl (4 / 5))],
            resp_totalResults = 2, resp_limit = 2\<rparr>"
    using search_example by (simp add: search_by_text_def)
  have n: "search_photos textEmbedding (PyList [1, 0]) example_corpus (- 1) =
       Inr \<lparr>resp_results = [result_entry ''b'' (Fin 1), result_entry ''c'' (fl (4 / 5)),
                            result_entry ''a'' (fl (3 / 5))],
            resp_totalResults = 3, resp_limit = - 1\<rparr>"
    using search_example_negative by (simp add: search_by_text_def)
  from total_results_is_truncated_length [OF s] total_results_is_truncated_length [OF n] s n
  show ?thesis
    by (simp add: qualifying_example sort_example slice_to_def)
qed

end
